theory Spec2Isabelle
  imports Main
begin

section \<open>Objects, pointers and the store\<close>

text \<open>
  The header \<^verbatim>\<open>mutex_guard.h\<close> declares two class templates, \<^verbatim>\<open>MutexGuard<T>\<close> and
  \<^verbatim>\<open>Mutex<T>\<close>. A guard holds two raw pointers into a \<^verbatim>\<open>Mutex<T>\<close> object, and the move
  operations of the guard write through a reference to another guard, which may be the
  guard itself. Objects therefore live in a store, at addresses, and a pointer is an
  address or \<^verbatim>\<open>nullptr\<close>.
\<close>

type_synonym addr = nat

text \<open>A raw pointer: \<open>None\<close> is \<^verbatim>\<open>nullptr\<close>, \<open>Some a\<close> points into the object at \<open>a\<close>.\<close>

type_synonym ptr = "addr option"

text \<open>
  What a call can end in other than a result: \<open>Blocks\<close>, the calling thread waits in
  \<^verbatim>\<open>std::mutex::lock\<close> and, with nobody else running, never returns; \<open>Undefined\<close>, the
  call has undefined behaviour (a null or dangling pointer is followed, a mutex that is
  not held is unlocked, an object that does not exist is used).
\<close>

datatype fault = Blocks | Undefined

subsection \<open>The mutual-exclusion primitive\<close>

datatype std_mutex = Unlocked | Locked

text \<open>
  Modelled from the spec: \<^verbatim>\<open>std::mutex\<close> comes from the header \<^verbatim>\<open><mutex>\<close> of the
  platform, which is not part of the repository. Its three operations follow the
  required capability of the spec (section 6) and the state machine of section 4.2:
  \<^verbatim>\<open>try_lock\<close> takes a free primitive and reports success, and leaves a held one as it
  is and reports failure; \<^verbatim>\<open>lock\<close> takes a free primitive and waits on a held one;
  \<^verbatim>\<open>unlock\<close> releases a held primitive, and the caller must hold it.
\<close>

definition std_mutex_try_lock :: "std_mutex \<Rightarrow> bool \<times> std_mutex" where
  "std_mutex_try_lock p = (case p of Unlocked \<Rightarrow> (True, Locked) | Locked \<Rightarrow> (False, Locked))"

definition std_mutex_lock :: "std_mutex \<Rightarrow> fault + std_mutex" where
  "std_mutex_lock p = (case p of Unlocked \<Rightarrow> Inr Locked | Locked \<Rightarrow> Inl Blocks)"

definition std_mutex_unlock :: "std_mutex \<Rightarrow> fault + std_mutex" where
  "std_mutex_unlock p = (case p of Locked \<Rightarrow> Inr Unlocked | Unlocked \<Rightarrow> Inl Undefined)"

text \<open>
  Modelled from the declaration of \<^verbatim>\<open>std::mutex\<close> in the C++ standard library, which
  is not part of the repository: the class declares its copy constructor and its copy
  assignment deleted and has no move constructor and no move assignment, so no
  \<^verbatim>\<open>std::mutex\<close> can be built from, or assigned from, another one. Neither function has a
  result for any argument.
\<close>

definition std_mutex_move_ctor :: "std_mutex \<Rightarrow> std_mutex option" where
  "std_mutex_move_ctor p = None"

definition std_mutex_move_assign :: "std_mutex \<Rightarrow> std_mutex option" where
  "std_mutex_move_assign p = None"

subsection \<open>The two classes\<close>

text \<open>
  \<^verbatim>\<open>class MutexGuard { T *value; std::mutex *mutex; ... }\<close>. Both pointers of a guard
  handed out by \<^verbatim>\<open>Mutex<T>\<close> point into the same \<^verbatim>\<open>Mutex<T>\<close> object (\<^verbatim>\<open>&value\<close> and
  \<^verbatim>\<open>&mutex\<close>), so both are given as the address of that object.
\<close>

record MutexGuard =
  MutexGuard_value :: ptr
  MutexGuard_mutex :: ptr

text \<open>\<^verbatim>\<open>class Mutex { std::mutex mutex; T value; ... }\<close>\<close>

record 'a Mutex =
  Mutex_mutex :: std_mutex
  Mutex_value :: 'a

text \<open>Which constructor of the template parameter \<^verbatim>\<open>T\<close> a member function runs.\<close>

datatype T_ctor = Copy | Move

text \<open>
  The store: the live \<^verbatim>\<open>Mutex<T>\<close> objects, the live \<^verbatim>\<open>MutexGuard<T>\<close> objects, and two
  logs of the calls made to the collaborators: the address of the \<^verbatim>\<open>Mutex<T>\<close> object
  whose primitive each \<^verbatim>\<open>unlock()\<close> call released, and the constructors of \<^verbatim>\<open>T\<close> that
  ran, in order.
\<close>

record 'a store =
  mutexes :: "addr \<rightharpoonup> 'a Mutex"
  guards :: "addr \<rightharpoonup> MutexGuard"
  unlocks :: "addr list"
  T_ctors :: "T_ctor list"

definition empty_store :: "'a store" where
  "empty_store = \<lparr>mutexes = Map.empty, guards = Map.empty, unlocks = [], T_ctors = []\<rparr>"

text \<open>Reading and writing one member of the guard object at an address.\<close>

definition get_value :: "addr \<Rightarrow> 'a store \<Rightarrow> ptr" where
  "get_value g st = (case guards st g of None \<Rightarrow> None | Some r \<Rightarrow> MutexGuard_value r)"

definition get_mutex :: "addr \<Rightarrow> 'a store \<Rightarrow> ptr" where
  "get_mutex g st = (case guards st g of None \<Rightarrow> None | Some r \<Rightarrow> MutexGuard_mutex r)"

definition set_value :: "addr \<Rightarrow> ptr \<Rightarrow> 'a store \<Rightarrow> 'a store" where
  "set_value g p st =
     st\<lparr>guards := (guards st)(g := map_option (\<lambda>r. r\<lparr>MutexGuard_value := p\<rparr>) (guards st g))\<rparr>"

definition set_mutex :: "addr \<Rightarrow> ptr \<Rightarrow> 'a store \<Rightarrow> 'a store" where
  "set_mutex g p st =
     st\<lparr>guards := (guards st)(g := map_option (\<lambda>r. r\<lparr>MutexGuard_mutex := p\<rparr>) (guards st g))\<rparr>"

section \<open>MutexGuard\<close>

text \<open>
  \<^verbatim>\<open>MutexGuard(T *value, std::mutex *mutex) : value(value), mutex(mutex) {}\<close>
  builds the guard that \<^verbatim>\<open>lock()\<close> and \<^verbatim>\<open>try_lock()\<close> return by value.
\<close>

definition MutexGuard_ctor :: "ptr \<Rightarrow> ptr \<Rightarrow> MutexGuard" where
  "MutexGuard_ctor value_arg mutex_arg =
     \<lparr>MutexGuard_value = value_arg, MutexGuard_mutex = mutex_arg\<rparr>"

text \<open>
  A returned guard initialises the caller's variable (\<^verbatim>\<open>auto guard = test.lock();\<close>): the
  object comes to life at the address of that variable.
\<close>

definition materialize :: "addr \<Rightarrow> MutexGuard \<Rightarrow> 'a store \<Rightarrow> 'a store" where
  "materialize g r st = st\<lparr>guards := (guards st)(g \<mapsto> r)\<rparr>"

text \<open>
  \<^verbatim>\<open>~MutexGuard() { if (mutex != nullptr) { mutex->unlock(); } }\<close>
  The object at \<open>this\<close> ends its life. With a non-null \<^verbatim>\<open>mutex\<close> the primitive of the
  pointed-to \<^verbatim>\<open>Mutex<T>\<close> is unlocked, which is logged.
\<close>

definition MutexGuard_dtor :: "addr \<Rightarrow> 'a store \<Rightarrow> fault + 'a store" where
  "MutexGuard_dtor this st =
     (case guards st this of
        None \<Rightarrow> Inl Undefined
      | Some r \<Rightarrow>
          (case MutexGuard_mutex r of
             None \<Rightarrow> Inr (st\<lparr>guards := (guards st)(this := None)\<rparr>)
           | Some a \<Rightarrow>
               (case mutexes st a of
                  None \<Rightarrow> Inl Undefined
                | Some m \<Rightarrow>
                    (case std_mutex_unlock (Mutex_mutex m) of
                       Inl e \<Rightarrow> Inl e
                     | Inr p \<Rightarrow>
                         Inr (st\<lparr>mutexes := (mutexes st)(a \<mapsto> m\<lparr>Mutex_mutex := p\<rparr>),
                                 guards := (guards st)(this := None),
                                 unlocks := unlocks st @ [a]\<rparr>)))))"

text \<open>
  \<^verbatim>\<open>T &operator*() const noexcept { return *value; }\<close>
  The result is the referenced \<^verbatim>\<open>value\<close> member, named by the address of its
  \<^verbatim>\<open>Mutex<T>\<close>; following a null pointer, or one to an object that is gone, is undefined.
\<close>

definition MutexGuard_deref :: "MutexGuard \<Rightarrow> 'a store \<Rightarrow> fault + addr" where
  "MutexGuard_deref r st =
     (case MutexGuard_value r of
        None \<Rightarrow> Inl Undefined
      | Some a \<Rightarrow> (if mutexes st a = None then Inl Undefined else Inr a))"

text \<open>\<^verbatim>\<open>T *operator->() const noexcept { return value; }\<close>\<close>

definition MutexGuard_arrow :: "MutexGuard \<Rightarrow> ptr" where
  "MutexGuard_arrow r = MutexGuard_value r"

text \<open>\<^verbatim>\<open>operator bool() const { return mutex != nullptr; }\<close>\<close>

definition MutexGuard_bool :: "MutexGuard \<Rightarrow> bool" where
  "MutexGuard_bool r = (MutexGuard_mutex r \<noteq> None)"

text \<open>
  \<^verbatim>\<open>MutexGuard(MutexGuard &&guard) noexcept
  { value = guard.value; mutex = guard.mutex; guard.mutex = nullptr; }\<close>
  The new object at \<open>this\<close> gets its storage (its pointer members hold nothing yet), then
  the three assignments of the body run in order.
\<close>

definition MutexGuard_move_ctor :: "addr \<Rightarrow> addr \<Rightarrow> 'a store \<Rightarrow> fault + 'a store" where
  "MutexGuard_move_ctor this guard st =
     (if guards st guard = None then Inl Undefined
      else
        let st0 = materialize this \<lparr>MutexGuard_value = None, MutexGuard_mutex = None\<rparr> st;
            st1 = set_value this (get_value guard st0) st0;
            st2 = set_mutex this (get_mutex guard st1) st1;
            st3 = set_mutex guard None st2
        in Inr st3)"

text \<open>
  \<^verbatim>\<open>MutexGuard &operator=(MutexGuard &&guard) noexcept
  { value = guard.value; mutex = guard.mutex; guard.mutex = nullptr; }\<close>
  The statements of the body: both objects are live, \<open>this\<close> and \<open>guard\<close> may be the same
  object, and the three assignments run in order.
\<close>

definition MutexGuard_assign_body :: "addr \<Rightarrow> addr \<Rightarrow> 'a store \<Rightarrow> fault + 'a store" where
  "MutexGuard_assign_body this guard st =
     (if guards st this = None \<or> guards st guard = None then Inl Undefined
      else
        let st1 = set_value this (get_value guard st) st;
            st2 = set_mutex this (get_mutex guard st1) st1;
            st3 = set_mutex guard None st2
        in Inr st3)"

text \<open>
  A call of the operator. The function is declared to return \<^verbatim>\<open>MutexGuard &\<close>, a
  reference given here as the address of the object referred to, and its body is the
  three assignments and nothing else: there is no \<^verbatim>\<open>return\<close> statement. After the third
  assignment control flows off the end of a function that returns a value, which is
  undefined behaviour: the call has no result and leaves no store to carry on with.
\<close>

definition MutexGuard_assign ::
    "addr \<Rightarrow> addr \<Rightarrow> 'a store \<Rightarrow> fault + (addr \<times> 'a store)" where
  "MutexGuard_assign this guard st =
     (case MutexGuard_assign_body this guard st of
        Inl e \<Rightarrow> Inl e
      | Inr st3 \<Rightarrow> Inl Undefined)"

section \<open>Mutex\<close>

text \<open>
  \<^verbatim>\<open>explicit Mutex(T value) : value(value) {}\<close>
  The members are initialised in the order of their declaration: \<^verbatim>\<open>mutex\<close> by the
  default constructor of \<^verbatim>\<open>std::mutex\<close>, which leaves it unlocked, then \<^verbatim>\<open>value\<close> from
  the constructor's parameter. In the initialiser \<^verbatim>\<open>value(value)\<close> the parameter is
  named as it is, an lvalue, so the member is built by the copy constructor of \<^verbatim>\<open>T\<close>.
\<close>

definition Mutex_ctor :: "addr \<Rightarrow> 'a \<Rightarrow> 'a store \<Rightarrow> 'a store" where
  "Mutex_ctor this value_arg st =
     st\<lparr>mutexes := (mutexes st)(this \<mapsto> \<lparr>Mutex_mutex = Unlocked, Mutex_value = value_arg\<rparr>),
        T_ctors := T_ctors st @ [Copy]\<rparr>"

text \<open>
  \<^verbatim>\<open>MutexGuard<T> try_lock() {
    if (mutex.try_lock()) { return MutexGuard<T>(&value, &mutex); }
    return MutexGuard<T>(nullptr, nullptr); }\<close>
\<close>

definition Mutex_try_lock :: "addr \<Rightarrow> 'a store \<Rightarrow> fault + (MutexGuard \<times> 'a store)" where
  "Mutex_try_lock this st =
     (case mutexes st this of
        None \<Rightarrow> Inl Undefined
      | Some m \<Rightarrow>
          let (ok, p) = std_mutex_try_lock (Mutex_mutex m);
              st' = st\<lparr>mutexes := (mutexes st)(this \<mapsto> m\<lparr>Mutex_mutex := p\<rparr>)\<rparr>
          in if ok then Inr (MutexGuard_ctor (Some this) (Some this), st')
             else Inr (MutexGuard_ctor None None, st'))"

text \<open>
  \<^verbatim>\<open>MutexGuard<T> lock() { mutex.lock(); return MutexGuard<T>(&value, &mutex); }\<close>
\<close>

definition Mutex_lock :: "addr \<Rightarrow> 'a store \<Rightarrow> fault + (MutexGuard \<times> 'a store)" where
  "Mutex_lock this st =
     (case mutexes st this of
        None \<Rightarrow> Inl Undefined
      | Some m \<Rightarrow>
          (case std_mutex_lock (Mutex_mutex m) of
             Inl e \<Rightarrow> Inl e
           | Inr p \<Rightarrow>
               Inr (MutexGuard_ctor (Some this) (Some this),
                    st\<lparr>mutexes := (mutexes st)(this \<mapsto> m\<lparr>Mutex_mutex := p\<rparr>)\<rparr>)))"

text \<open>
  \<^verbatim>\<open>static T unwrap(Mutex<T>&& self) { return std::move(self.value); }\<close>
  The returned \<^verbatim>\<open>T\<close> is built by the move constructor of \<^verbatim>\<open>T\<close> from the member, and
  holds the value the member had. What the move leaves behind in the member is up to
  \<^verbatim>\<open>T\<close>, a template parameter, and is a parameter here: \<open>moved_from v\<close> is the state of a
  \<^verbatim>\<open>T\<close> that held \<open>v\<close> after it was moved from (an \<^verbatim>\<open>int\<close> keeps its value, a
  \<^verbatim>\<open>std::string\<close> is left empty).
\<close>

definition Mutex_unwrap ::
    "('a \<Rightarrow> 'a) \<Rightarrow> addr \<Rightarrow> 'a store \<Rightarrow> fault + ('a \<times> 'a store)" where
  "Mutex_unwrap moved_from self st =
     (case mutexes st self of
        None \<Rightarrow> Inl Undefined
      | Some m \<Rightarrow>
          Inr (Mutex_value m,
               st\<lparr>mutexes := (mutexes st)(self \<mapsto> m\<lparr>Mutex_value := moved_from (Mutex_value m)\<rparr>),
                  T_ctors := T_ctors st @ [Move]\<rparr>))"

text \<open>
  \<^verbatim>\<open>Mutex(Mutex &&) noexcept = default;\<close>
  A defaulted move constructor moves member by member, \<^verbatim>\<open>mutex\<close> first. It exists only
  if every member can be built from an rvalue of its own type; where one cannot, the
  language defines the defaulted constructor as deleted and a call does not compile,
  which is the result \<open>None\<close>. The new object would live at \<open>this\<close>.
\<close>

definition Mutex_move_ctor :: "addr \<Rightarrow> addr \<Rightarrow> 'a store \<Rightarrow> 'a store option" where
  "Mutex_move_ctor this other st =
     (case mutexes st other of
        None \<Rightarrow> None
      | Some m \<Rightarrow>
          (case std_mutex_move_ctor (Mutex_mutex m) of
             None \<Rightarrow> None
           | Some p \<Rightarrow>
               Some (st\<lparr>mutexes := (mutexes st)(this \<mapsto> \<lparr>Mutex_mutex = p, Mutex_value = Mutex_value m\<rparr>),
                        T_ctors := T_ctors st @ [Move]\<rparr>)))"

text \<open>
  \<^verbatim>\<open>Mutex &operator=(Mutex &&) noexcept = default;\<close>
  A defaulted move assignment assigns member by member, \<^verbatim>\<open>mutex\<close> first, and is
  defined as deleted where a member cannot be assigned from an rvalue of its own type.
\<close>

definition Mutex_move_assign :: "addr \<Rightarrow> addr \<Rightarrow> 'a store \<Rightarrow> 'a store option" where
  "Mutex_move_assign this other st =
     (case (mutexes st this, mutexes st other) of
        (Some _, Some m) \<Rightarrow>
          (case std_mutex_move_assign (Mutex_mutex m) of
             None \<Rightarrow> None
           | Some p \<Rightarrow>
               Some (st\<lparr>mutexes := (mutexes st)(this \<mapsto> \<lparr>Mutex_mutex = p, Mutex_value = Mutex_value m\<rparr>)\<rparr>))
      | _ \<Rightarrow> None)"

section \<open>Programs over the public interface\<close>

text \<open>
  The statements a caller can write with the two classes, as \<^verbatim>\<open>example.cpp\<close> does:
  \<^item> \<open>New_Mutex a v\<close>: \<^verbatim>\<open>Mutex<T> m(v);\<close>, the object at the unused address \<open>a\<close>;
  \<^item> \<open>Lock a g\<close>: \<^verbatim>\<open>auto g = m.lock();\<close>, the guard at the unused address \<open>g\<close>;
  \<^item> \<open>Try_lock a g\<close>: \<^verbatim>\<open>auto g = m.try_lock();\<close>;
  \<^item> \<open>Move_ctor d s\<close>: \<^verbatim>\<open>MutexGuard<T> d(std::move(s));\<close>, \<open>d\<close> at an unused address;
  \<^item> \<open>Assign d s\<close>: \<^verbatim>\<open>d = std::move(s);\<close>, the reference it should return not used;
  \<^item> \<open>Dtor g\<close>: the guard \<open>g\<close> goes out of scope;
  \<^item> \<open>Write g v\<close>: \<^verbatim>\<open>*g = v;\<close>.
\<close>

datatype 'a op =
    New_Mutex addr 'a
  | Lock addr addr
  | Try_lock addr addr
  | Move_ctor addr addr
  | Assign addr addr
  | Dtor addr
  | Write addr 'a

definition write_value :: "addr \<Rightarrow> 'a \<Rightarrow> 'a store \<Rightarrow> 'a store" where
  "write_value a v st =
     st\<lparr>mutexes := (mutexes st)(a := map_option (\<lambda>m. m\<lparr>Mutex_value := v\<rparr>) (mutexes st a))\<rparr>"

fun step :: "'a op \<Rightarrow> 'a store \<Rightarrow> fault + 'a store" where
  "step (New_Mutex a v) st =
     (if mutexes st a = None then Inr (Mutex_ctor a v st) else Inl Undefined)"
| "step (Lock a g) st =
     (if guards st g = None
      then (case Mutex_lock a st of Inl e \<Rightarrow> Inl e | Inr (r, st') \<Rightarrow> Inr (materialize g r st'))
      else Inl Undefined)"
| "step (Try_lock a g) st =
     (if guards st g = None
      then (case Mutex_try_lock a st of Inl e \<Rightarrow> Inl e | Inr (r, st') \<Rightarrow> Inr (materialize g r st'))
      else Inl Undefined)"
| "step (Move_ctor d s) st =
     (if guards st d = None then MutexGuard_move_ctor d s st else Inl Undefined)"
| "step (Assign d s) st =
     (case MutexGuard_assign d s st of Inl e \<Rightarrow> Inl e | Inr (_, st') \<Rightarrow> Inr st')"
| "step (Dtor g) st = MutexGuard_dtor g st"
| "step (Write g v) st =
     (case guards st g of
        None \<Rightarrow> Inl Undefined
      | Some r \<Rightarrow>
          (case MutexGuard_deref r st of Inl e \<Rightarrow> Inl e | Inr a \<Rightarrow> Inr (write_value a v st)))"

fun run :: "'a op list \<Rightarrow> 'a store \<Rightarrow> fault + 'a store" where
  "run [] st = Inr st"
| "run (x # xs) st = (case step x st of Inl e \<Rightarrow> Inl e | Inr st' \<Rightarrow> run xs st')"

text \<open>A guard moved along a chain of fresh variables: \<open>g\<close> into \<open>h1\<close>, \<open>h1\<close> into \<open>h2\<close>, ...\<close>

fun moves :: "addr \<Rightarrow> addr list \<Rightarrow> 'a op list" where
  "moves g [] = []"
| "moves g (h # hs) = Move_ctor h g # moves h hs"

definition is_Write :: "'a op \<Rightarrow> bool" where
  "is_Write x = (case x of Write _ _ \<Rightarrow> True | _ \<Rightarrow> False)"

text \<open>What a run left at an address, for inspecting the outcome of a concrete program.\<close>

definition guard_at :: "addr \<Rightarrow> fault + 'a store \<Rightarrow> MutexGuard option" where
  "guard_at g res = (case res of Inl _ \<Rightarrow> None | Inr st \<Rightarrow> guards st g)"

definition unlocks_of :: "fault + 'a store \<Rightarrow> addr list option" where
  "unlocks_of res = (case res of Inl _ \<Rightarrow> None | Inr st \<Rightarrow> Some (unlocks st))"

section \<open>Predicates on stores\<close>

text \<open>
  A store is well formed when every guard with a non-null mutex pointer has its value
  pointer at the same \<^verbatim>\<open>Mutex\<close>, that \<^verbatim>\<open>Mutex\<close> is live with its primitive locked, and no
  other guard has its mutex pointer there.
\<close>

definition wf_store :: "'a store \<Rightarrow> bool" where
  "wf_store st \<longleftrightarrow>
     (\<forall>g r a. guards st g = Some r \<and> MutexGuard_mutex r = Some a \<longrightarrow>
        MutexGuard_value r = Some a
        \<and> (\<exists>m. mutexes st a = Some m \<and> Mutex_mutex m = Locked)
        \<and> (\<forall>h r'. guards st h = Some r' \<and> MutexGuard_mutex r' = Some a \<longrightarrow> h = g))"

text \<open>A husk: a live guard whose mutex pointer is null, as a move leaves its source.\<close>

definition husk :: "'a store \<Rightarrow> addr \<Rightarrow> bool" where
  "husk st h \<longleftrightarrow> (\<exists>r. guards st h = Some r \<and> MutexGuard_mutex r = None)"

section \<open>Evaluating concrete programs\<close>

lemmas eval_defs = empty_store_def Mutex_ctor_def Mutex_lock_def Mutex_try_lock_def
  Mutex_unwrap_def std_mutex_lock_def std_mutex_try_lock_def std_mutex_unlock_def
  MutexGuard_ctor_def materialize_def MutexGuard_move_ctor_def MutexGuard_assign_def
  MutexGuard_assign_body_def
  MutexGuard_dtor_def MutexGuard_deref_def write_value_def Let_def set_value_def
  set_mutex_def get_value_def get_mutex_def

text \<open>
  The \<^verbatim>\<open>main\<close> of \<^verbatim>\<open>example.cpp\<close> without its dangling call: a \<^verbatim>\<open>Mutex<int>\<close> built with 0,
  incremented once under \<^verbatim>\<open>try_lock()\<close> and once under \<^verbatim>\<open>lock()\<close>, unwraps to 2, with one
  \<^verbatim>\<open>unlock()\<close> per guard.
\<close>

lemma example_main:
  "\<exists>st st'. run [New_Mutex 0 (0::int), Try_lock 0 1, Write 1 1, Dtor 1,
                   Lock 0 2, Write 2 2, Dtor 2] empty_store = Inr st
      \<and> unlocks st = [0, 0] \<and> Mutex_unwrap (\<lambda>v. v) 0 st = Inr (2, st')"
  by (simp add: eval_defs)

section \<open>Effects of the single operations\<close>

lemma Mutex_lock_unlocked:
  assumes "mutexes st a = Some m" and "Mutex_mutex m = Unlocked"
  shows "Mutex_lock a st =
           Inr (\<lparr>MutexGuard_value = Some a, MutexGuard_mutex = Some a\<rparr>,
                st\<lparr>mutexes := (mutexes st)(a \<mapsto> m\<lparr>Mutex_mutex := Locked\<rparr>)\<rparr>)"
  using assms by (simp add: Mutex_lock_def std_mutex_lock_def MutexGuard_ctor_def)

lemma Mutex_lock_returns:
  assumes "Mutex_lock a st = Inr (r, st')"
  shows "r = \<lparr>MutexGuard_value = Some a, MutexGuard_mutex = Some a\<rparr>"
  using assms
  by (auto simp: Mutex_lock_def MutexGuard_ctor_def split: option.splits sum.splits)

lemma Mutex_try_lock_cases:
  assumes "Mutex_try_lock a st = Inr (r, st')"
  obtains (acquired) m where "mutexes st a = Some m" "Mutex_mutex m = Unlocked"
      "r = \<lparr>MutexGuard_value = Some a, MutexGuard_mutex = Some a\<rparr>"
      "st' = st\<lparr>mutexes := (mutexes st)(a \<mapsto> m\<lparr>Mutex_mutex := Locked\<rparr>)\<rparr>"
  | (held) m where "mutexes st a = Some m" "Mutex_mutex m = Locked"
      "r = \<lparr>MutexGuard_value = None, MutexGuard_mutex = None\<rparr>" "st' = st"
proof -
  from assms obtain m where m: "mutexes st a = Some m"
    by (auto simp: Mutex_try_lock_def split: option.splits)
  show thesis
  proof (cases "Mutex_mutex m")
    case Unlocked
    with assms m show thesis
      by (intro acquired [of m])
        (auto simp: Mutex_try_lock_def std_mutex_try_lock_def MutexGuard_ctor_def)
  next
    case Locked
    then have "m\<lparr>Mutex_mutex := Locked\<rparr> = m" by simp
    then have "(mutexes st)(a \<mapsto> m\<lparr>Mutex_mutex := Locked\<rparr>) = mutexes st"
      using m by (simp add: map_upd_triv)
    with assms m Locked show thesis
      by (intro held [of m])
        (auto simp: Mutex_try_lock_def std_mutex_try_lock_def MutexGuard_ctor_def)
  qed
qed

lemma MutexGuard_assign_body_effect:
  assumes "guards st d = Some rd" and "guards st s = Some rs"
  shows "MutexGuard_assign_body d s st =
           Inr (st\<lparr>guards := (guards st)
                  (d \<mapsto> rd\<lparr>MutexGuard_value := MutexGuard_value rs,
                           MutexGuard_mutex := MutexGuard_mutex rs\<rparr>,
                   s \<mapsto> rs\<lparr>MutexGuard_mutex := None\<rparr>)\<rparr>)"
  using assms
  by (auto simp: MutexGuard_assign_body_def Let_def set_value_def set_mutex_def get_value_def
      get_mutex_def)

lemma MutexGuard_assign_undefined: "MutexGuard_assign d s st = Inl Undefined"
  by (simp add: MutexGuard_assign_def MutexGuard_assign_body_def Let_def)

lemma MutexGuard_move_ctor_effect:
  assumes "guards st s = Some rs" and "d \<noteq> s"
  shows "MutexGuard_move_ctor d s st =
           Inr (st\<lparr>guards := (guards st)
                  (d \<mapsto> \<lparr>MutexGuard_value = MutexGuard_value rs,
                          MutexGuard_mutex = MutexGuard_mutex rs\<rparr>,
                   s \<mapsto> rs\<lparr>MutexGuard_mutex := None\<rparr>)\<rparr>)"
  using assms
  by (simp add: MutexGuard_move_ctor_def Let_def set_value_def set_mutex_def get_value_def
      get_mutex_def materialize_def)

lemma dtor_null_mutex:
  assumes "guards st g = Some r" and "MutexGuard_mutex r = None"
  shows "MutexGuard_dtor g st = Inr (st\<lparr>guards := (guards st)(g := None)\<rparr>)"
  using assms by (simp add: MutexGuard_dtor_def)

lemma dtor_husk:
  assumes "husk st g"
  shows "MutexGuard_dtor g st = Inr (st\<lparr>guards := (guards st)(g := None)\<rparr>)"
  using assms by (auto simp: husk_def dtor_null_mutex)

lemma dtor_holder:
  assumes "guards st g = Some r" and "MutexGuard_mutex r = Some a"
    and "mutexes st a = Some m" and "Mutex_mutex m = Locked"
  shows "MutexGuard_dtor g st =
           Inr (st\<lparr>mutexes := (mutexes st)(a \<mapsto> m\<lparr>Mutex_mutex := Unlocked\<rparr>),
                   guards := (guards st)(g := None),
                   unlocks := unlocks st @ [a]\<rparr>)"
  using assms by (simp add: MutexGuard_dtor_def std_mutex_unlock_def)

lemma acquired_store:
  assumes "step (Lock a g) st = Inr st1
           \<or> (step (Try_lock a g) st = Inr st1 \<and> (\<exists>r. guards st1 g = Some r \<and> MutexGuard_bool r))"
  shows "\<exists>m. mutexes st a = Some m \<and> Mutex_mutex m = Unlocked \<and> guards st g = None
           \<and> st1 = materialize g \<lparr>MutexGuard_value = Some a, MutexGuard_mutex = Some a\<rparr>
                      (st\<lparr>mutexes := (mutexes st)(a \<mapsto> m\<lparr>Mutex_mutex := Locked\<rparr>)\<rparr>)"
  using assms
proof
  assume "step (Lock a g) st = Inr st1"
  then show ?thesis
    by (auto simp: Mutex_lock_def std_mutex_lock_def MutexGuard_ctor_def
        split: if_splits option.splits sum.splits std_mutex.splits)
next
  assume a: "step (Try_lock a g) st = Inr st1 \<and> (\<exists>r. guards st1 g = Some r \<and> MutexGuard_bool r)"
  then obtain r st0 where tl: "Mutex_try_lock a st = Inr (r, st0)"
    and st1: "st1 = materialize g r st0" and fresh: "guards st g = None"
    by (auto split: if_splits sum.splits)
  from a st1 have valid: "MutexGuard_bool r" by (auto simp: materialize_def)
  from tl show ?thesis
  proof (cases rule: Mutex_try_lock_cases)
    case (acquired m)
    with st1 fresh show ?thesis by simp
  next
    case (held m)
    with valid show ?thesis by (simp add: MutexGuard_bool_def)
  qed
qed

section \<open>Well-formedness is kept by every statement\<close>

lemma wf_empty: "wf_store empty_store"
  by (simp add: wf_store_def empty_store_def)

lemma wf_New_Mutex:
  assumes "wf_store st" and "step (New_Mutex a v) st = Inr st'"
  shows "wf_store st'"
proof -
  from assms(2) have fresh: "mutexes st a = None" and st': "st' = Mutex_ctor a v st"
    by (auto split: if_splits)
  show ?thesis
    using assms(1) fresh unfolding st' wf_store_def Mutex_ctor_def
    by (auto; fastforce)
qed

lemma wf_acquired:
  assumes wf: "wf_store st" and m: "mutexes st a = Some m" "Mutex_mutex m = Unlocked"
  shows "wf_store (materialize g \<lparr>MutexGuard_value = Some a, MutexGuard_mutex = Some a\<rparr>
            (st\<lparr>mutexes := (mutexes st)(a \<mapsto> m\<lparr>Mutex_mutex := Locked\<rparr>)\<rparr>))"
  using assms unfolding wf_store_def materialize_def
  by (auto; fastforce)

lemma wf_failed:
  assumes wf: "wf_store st"
  shows "wf_store (materialize g \<lparr>MutexGuard_value = None, MutexGuard_mutex = None\<rparr> st)"
  using assms unfolding wf_store_def materialize_def
  by (auto; fastforce)

lemma wf_Lock:
  assumes "wf_store st" and "step (Lock a g) st = Inr st'"
  shows "wf_store st'"
proof -
  from acquired_store [OF disjI1 [OF assms(2)]] obtain m where
    m: "mutexes st a = Some m" "Mutex_mutex m = Unlocked"
    and st': "st' = materialize g \<lparr>MutexGuard_value = Some a, MutexGuard_mutex = Some a\<rparr>
            (st\<lparr>mutexes := (mutexes st)(a \<mapsto> m\<lparr>Mutex_mutex := Locked\<rparr>)\<rparr>)"
    by blast
  show ?thesis unfolding st' by (rule wf_acquired [OF assms(1) m])
qed

lemma wf_Try_lock:
  assumes "wf_store st" and "step (Try_lock a g) st = Inr st'"
  shows "wf_store st'"
proof -
  from assms(2) obtain r st1 where tl: "Mutex_try_lock a st = Inr (r, st1)"
    and st': "st' = materialize g r st1"
    by (auto split: if_splits sum.splits)
  from tl show ?thesis
  proof (cases rule: Mutex_try_lock_cases)
    case (acquired m)
    then show ?thesis unfolding st' using wf_acquired [OF assms(1), of a m g] by simp
  next
    case (held m)
    then show ?thesis unfolding st' using wf_failed [OF assms(1), of g] by simp
  qed
qed

lemma wf_Move_ctor:
  assumes "wf_store st" and "step (Move_ctor d s) st = Inr st'"
  shows "wf_store st'"
proof -
  from assms(2) have fresh: "guards st d = None" and mc: "MutexGuard_move_ctor d s st = Inr st'"
    by (auto split: if_splits)
  from mc obtain rs where rs: "guards st s = Some rs"
    by (auto simp: MutexGuard_move_ctor_def split: if_splits)
  with fresh have ne: "d \<noteq> s" by auto
  have st': "st' = st\<lparr>guards := (guards st)
                  (d \<mapsto> \<lparr>MutexGuard_value = MutexGuard_value rs,
                          MutexGuard_mutex = MutexGuard_mutex rs\<rparr>,
                   s \<mapsto> rs\<lparr>MutexGuard_mutex := None\<rparr>)\<rparr>"
    using mc MutexGuard_move_ctor_effect [OF rs ne] by simp
  show ?thesis
    using assms(1) rs fresh ne unfolding st' wf_store_def
    by (auto; fastforce)
qed

lemma wf_Assign:
  assumes "wf_store st" and "step (Assign d s) st = Inr st'"
  shows "wf_store st'"
  using assms(2) by (simp add: MutexGuard_assign_undefined)

lemma wf_Dtor:
  assumes "wf_store st" and "step (Dtor g) st = Inr st'"
  shows "wf_store st'"
proof -
  from assms(2) obtain r where r: "guards st g = Some r"
    by (auto simp: MutexGuard_dtor_def split: option.splits)
  show ?thesis
  proof (cases "MutexGuard_mutex r")
    case None
    with assms(2) r have st': "st' = st\<lparr>guards := (guards st)(g := None)\<rparr>"
      by (simp add: MutexGuard_dtor_def)
    show ?thesis using assms(1) unfolding st' wf_store_def by (auto; fastforce)
  next
    case (Some a)
    with assms(2) r obtain m where m: "mutexes st a = Some m" "Mutex_mutex m = Locked"
      and st': "st' = st\<lparr>mutexes := (mutexes st)(a \<mapsto> m\<lparr>Mutex_mutex := Unlocked\<rparr>),
                                 guards := (guards st)(g := None),
                                 unlocks := unlocks st @ [a]\<rparr>"
      by (auto simp: MutexGuard_dtor_def std_mutex_unlock_def
          split: option.splits sum.splits std_mutex.splits)
    show ?thesis using assms(1) r Some m unfolding st' wf_store_def by (auto; fastforce)
  qed
qed

lemma wf_Write:
  assumes "wf_store st" and "step (Write g v) st = Inr st'"
  shows "wf_store st'"
proof -
  from assms(2) obtain a where st': "st' = write_value a v st"
    by (auto split: option.splits sum.splits)
  show ?thesis using assms(1) unfolding st' wf_store_def write_value_def
    by (auto; fastforce)
qed

lemma wf_step:
  assumes "wf_store st" and "step x st = Inr st'"
  shows "wf_store st'"
  using assms
  by (cases x)
    (blast intro: wf_New_Mutex wf_Lock wf_Try_lock wf_Move_ctor wf_Assign wf_Dtor wf_Write)+

lemma wf_run:
  assumes "wf_store st" and "run xs st = Inr st'"
  shows "wf_store st'"
  using assms
proof (induction xs arbitrary: st)
  case Nil
  then show ?case by simp
next
  case (Cons x xs)
  from Cons.prems(2) obtain st1 where s1: "step x st = Inr st1" and r: "run xs st1 = Inr st'"
    by (auto split: sum.splits)
  from wf_step [OF Cons.prems(1) s1] r show ?case by (rule Cons.IH)
qed

lemma wf_reachable: "run xs empty_store = Inr st \<Longrightarrow> wf_store st"
  by (rule wf_run [OF wf_empty])

section \<open>Acquisition\<close>

text \<open>
  C3. On a \<^verbatim>\<open>Mutex\<close> whose primitive is unlocked, \<^verbatim>\<open>lock()\<close> returns, and the guard it
  returns has a non-null value pointer and a non-null mutex pointer and converts to
  \<^verbatim>\<open>true\<close>. Whenever \<^verbatim>\<open>lock()\<close> returns a guard at all, from any store, that guard has
  both pointers non-null and converts to \<^verbatim>\<open>true\<close>: \<^verbatim>\<open>lock()\<close> never yields an invalid
  guard.
\<close>

theorem lock_returns_valid_guard:
  "(mutexes st a = Some m \<and> Mutex_mutex m = Unlocked \<longrightarrow>
      (\<exists>r st'. Mutex_lock a st = Inr (r, st') \<and> MutexGuard_value r \<noteq> None
          \<and> MutexGuard_mutex r \<noteq> None \<and> MutexGuard_bool r))
   \<and> (\<forall>r st'. Mutex_lock a st = Inr (r, st') \<longrightarrow>
        MutexGuard_value r \<noteq> None \<and> MutexGuard_mutex r \<noteq> None \<and> MutexGuard_bool r)"
proof -
  have "\<exists>r st'. Mutex_lock a st = Inr (r, st') \<and> MutexGuard_value r \<noteq> None
          \<and> MutexGuard_mutex r \<noteq> None \<and> MutexGuard_bool r"
    if "mutexes st a = Some m \<and> Mutex_mutex m = Unlocked"
    using that by (simp add: Mutex_lock_unlocked MutexGuard_bool_def)
  moreover have "MutexGuard_value r \<noteq> None \<and> MutexGuard_mutex r \<noteq> None \<and> MutexGuard_bool r"
    if "Mutex_lock a st = Inr (r, st')" for r st'
    using Mutex_lock_returns [OF that] by (simp add: MutexGuard_bool_def)
  ultimately show ?thesis by blast
qed

text \<open>The theorem at a freshly constructed \<^verbatim>\<open>Mutex<int>\<close>.\<close>

theorem lock_returns_valid_guard_witness:
  "\<exists>r st'. Mutex_lock 0 (Mutex_ctor 0 (7::int) empty_store) = Inr (r, st')
      \<and> MutexGuard_value r \<noteq> None \<and> MutexGuard_mutex r \<noteq> None \<and> MutexGuard_bool r"
  using lock_returns_valid_guard
    [of "Mutex_ctor 0 (7::int) empty_store" 0 "\<lparr>Mutex_mutex = Unlocked, Mutex_value = 7\<rparr>"]
  by (simp add: Mutex_ctor_def empty_store_def)

text \<open>
  C4. On a \<^verbatim>\<open>Mutex\<close> whose primitive is already held, \<^verbatim>\<open>try_lock()\<close> returns a guard with
  both pointers null, which converts to \<^verbatim>\<open>false\<close>, and the store after the call is the
  store before it: the primitive, the owned value and everything else are unchanged.
\<close>

theorem try_lock_held_fails_unchanged:
  assumes "mutexes st a = Some m" and "Mutex_mutex m = Locked"
  shows "\<exists>r. Mutex_try_lock a st = Inr (r, st)
           \<and> MutexGuard_value r = None \<and> MutexGuard_mutex r = None \<and> \<not> MutexGuard_bool r"
proof -
  have "m\<lparr>Mutex_mutex := Locked\<rparr> = m"
    using assms(2) by simp
  then have "(mutexes st)(a \<mapsto> m\<lparr>Mutex_mutex := Locked\<rparr>) = mutexes st"
    using assms(1) by (simp add: map_upd_triv)
  then show ?thesis
    using assms
    by (simp add: Mutex_try_lock_def std_mutex_try_lock_def MutexGuard_ctor_def MutexGuard_bool_def)
qed

text \<open>The theorem while a guard from \<^verbatim>\<open>lock()\<close> holds the \<^verbatim>\<open>Mutex\<close>.\<close>

theorem try_lock_held_fails_unchanged_witness:
  "\<exists>st r. run [New_Mutex 0 (5::int), Lock 0 1] empty_store = Inr st
      \<and> Mutex_try_lock 0 st = Inr (r, st)
      \<and> MutexGuard_value r = None \<and> MutexGuard_mutex r = None \<and> \<not> MutexGuard_bool r"
proof -
  obtain st where r: "run [New_Mutex 0 (5::int), Lock 0 1] empty_store = Inr st"
    and m: "mutexes st 0 = Some \<lparr>Mutex_mutex = Locked, Mutex_value = 5\<rparr>"
    by (simp add: eval_defs)
  from try_lock_held_fails_unchanged [OF m] r show ?thesis by auto
qed

section \<open>Construction and relocation of the container\<close>

text \<open>
  C5. The constructor of \<^verbatim>\<open>Mutex\<close> always yields a store, in which the new object has an
  unlocked primitive and owns the value it was given; the one constructor of \<^verbatim>\<open>T\<close> it
  runs to initialise the member is the copy constructor, not the move constructor.
\<close>

theorem Mutex_ctor_copies:
  "mutexes (Mutex_ctor a v st) a = Some \<lparr>Mutex_mutex = Unlocked, Mutex_value = v\<rparr>
   \<and> T_ctors (Mutex_ctor a v st) = T_ctors st @ [Copy]"
  by (simp add: Mutex_ctor_def)

text \<open>
  C8. Neither the defaulted move constructor nor the defaulted move assignment of
  \<^verbatim>\<open>Mutex\<close> has a result, for any objects and any store: the member \<^verbatim>\<open>std::mutex mutex\<close>
  can be neither built nor assigned from another \<^verbatim>\<open>std::mutex\<close>, so both operations are
  deleted and nothing is transferred.
\<close>

theorem Mutex_move_deleted:
  "Mutex_move_ctor this other st = None \<and> Mutex_move_assign this other st = None"
  by (simp add: Mutex_move_ctor_def Mutex_move_assign_def std_mutex_move_ctor_def
      std_mutex_move_assign_def split: option.splits)

section \<open>Move assignment of a guard\<close>

text \<open>
  C10. No call of the move assignment of \<^verbatim>\<open>MutexGuard\<close> returns a reference: whatever the
  two guards and the store, the result is never a returned reference together with a
  store, since the body ends without a \<^verbatim>\<open>return\<close> statement.
\<close>

theorem MutexGuard_assign_never_returns:
  "MutexGuard_assign d s st \<noteq> Inr (x, st')"
  by (simp add: MutexGuard_assign_undefined)



section \<open>The two pointers of a guard\<close>

text \<open>
  C6 (the two pointers are null together or non-null together) does not hold of a
  moved-from guard: after \<^verbatim>\<open>auto g1 = m.lock(); MutexGuard<int> g2(std::move(g1));\<close> the
  guard \<open>g1\<close> has a non-null value pointer and a null mutex pointer.
\<close>

theorem moved_from_guard_keeps_value:
  "guard_at 1 (run [New_Mutex 0 (0::int), Lock 0 1, Move_ctor 2 1] empty_store)
     = Some \<lparr>MutexGuard_value = Some 0, MutexGuard_mutex = None\<rparr>"
  by (simp add: guard_at_def eval_defs)

text \<open>
  C6, amended. In every guard of a store reached through the public interface
  (construction by \<^verbatim>\<open>lock()\<close> and \<^verbatim>\<open>try_lock()\<close>, moves, destruction, writes through a
  guard), a non-null mutex pointer comes with a non-null value pointer; and a guard as
  \<^verbatim>\<open>lock()\<close> or \<^verbatim>\<open>try_lock()\<close> returns it has both pointers null or both non-null.
\<close>

theorem reachable_guard_mutex_implies_value:
  "(run ops empty_store = Inr st \<and> guards st g = Some r \<and> MutexGuard_mutex r \<noteq> None
      \<longrightarrow> MutexGuard_value r \<noteq> None)
   \<and> (Mutex_lock a st0 = Inr (r0, st1) \<or> Mutex_try_lock a st0 = Inr (r0, st1)
      \<longrightarrow> (MutexGuard_value r0 = None \<longleftrightarrow> MutexGuard_mutex r0 = None))"
proof -
  have "MutexGuard_value r \<noteq> None"
    if a: "run ops empty_store = Inr st \<and> guards st g = Some r \<and> MutexGuard_mutex r \<noteq> None"
  proof -
    from a have "wf_store st" by (auto intro: wf_reachable)
    with a show ?thesis unfolding wf_store_def by fastforce
  qed
  moreover have "MutexGuard_value r0 = None \<longleftrightarrow> MutexGuard_mutex r0 = None"
    if "Mutex_lock a st0 = Inr (r0, st1) \<or> Mutex_try_lock a st0 = Inr (r0, st1)"
    using that
  proof
    assume "Mutex_lock a st0 = Inr (r0, st1)"
    from Mutex_lock_returns [OF this] show ?thesis by simp
  next
    assume "Mutex_try_lock a st0 = Inr (r0, st1)"
    then show ?thesis by (cases rule: Mutex_try_lock_cases) simp_all
  qed
  ultimately show ?thesis by blast
qed

text \<open>The amended statement at the guard that received the lock in the program above.\<close>

theorem reachable_guard_mutex_implies_value_witness:
  "\<exists>st r. run [New_Mutex 0 (0::int), Lock 0 1, Move_ctor 2 1] empty_store = Inr st
      \<and> guards st 2 = Some r \<and> MutexGuard_mutex r \<noteq> None \<and> MutexGuard_value r \<noteq> None"
proof -
  obtain st r where r: "run [New_Mutex 0 (0::int), Lock 0 1, Move_ctor 2 1] empty_store = Inr st"
     "guards st 2 = Some r" "MutexGuard_mutex r \<noteq> None"
    by (simp add: eval_defs)
  with reachable_guard_mutex_implies_value [of "[New_Mutex 0 (0::int), Lock 0 1, Move_ctor 2 1]" st 2 r]
  have "MutexGuard_value r \<noteq> None" by blast
  with r show ?thesis by blast
qed

section \<open>The owned value\<close>

lemma step_keeps_value:
  assumes "\<not> is_Write x" and "step x st = Inr st'" and "mutexes st a = Some m"
  shows "\<exists>m'. mutexes st' a = Some m' \<and> Mutex_value m' = Mutex_value m"
proof (cases x)
  case (New_Mutex b v)
  with assms show ?thesis by (auto simp: Mutex_ctor_def split: if_splits)
next
  case (Lock b g)
  with assms show ?thesis
    by (auto simp: Mutex_lock_def materialize_def split: if_splits option.splits sum.splits)
next
  case (Try_lock b g)
  with assms(2) obtain r st1 where tl: "Mutex_try_lock b st = Inr (r, st1)"
    and st': "st' = materialize g r st1"
    by (auto split: if_splits sum.splits)
  from tl show ?thesis
    by (cases rule: Mutex_try_lock_cases) (use assms(3) st' in \<open>auto simp: materialize_def\<close>)
next
  case (Move_ctor d s)
  with assms show ?thesis
    by (auto simp: MutexGuard_move_ctor_def Let_def set_value_def set_mutex_def materialize_def
        split: if_splits)
next
  case (Assign d s)
  with assms(2) show ?thesis by (simp add: MutexGuard_assign_undefined)
next
  case (Dtor g)
  with assms show ?thesis
    by (auto simp: MutexGuard_dtor_def split: option.splits sum.splits)
next
  case (Write g v)
  with assms(1) show ?thesis by (simp add: is_Write_def)
qed

lemma run_keeps_value:
  assumes "\<forall>x\<in>set xs. \<not> is_Write x" and "run xs st = Inr st'" and "mutexes st a = Some m"
  shows "\<exists>m'. mutexes st' a = Some m' \<and> Mutex_value m' = Mutex_value m"
  using assms
proof (induction xs arbitrary: st m)
  case Nil
  then show ?case by simp
next
  case (Cons x xs)
  from Cons.prems(2) obtain st1 where s1: "step x st = Inr st1" and r: "run xs st1 = Inr st'"
    by (auto split: sum.splits)
  from Cons.prems(1) have nw: "\<not> is_Write x" and rest: "\<forall>x\<in>set xs. \<not> is_Write x" by simp_all
  from step_keeps_value [OF nw s1 Cons.prems(3)]
  obtain m1 where m1: "mutexes st1 a = Some m1" "Mutex_value m1 = Mutex_value m" by blast
  from Cons.IH [OF rest r m1(1)] m1(2) show ?case by simp
qed

text \<open>
  C2. A \<^verbatim>\<open>Mutex\<close> is constructed with a value \<open>v\<close>; then any statements of the public
  interface run, none of them a write through a dereferenced guard; then \<^verbatim>\<open>unwrap\<close> is
  called. Whatever the statements were (locking, failed and successful \<^verbatim>\<open>try_lock()\<close>,
  moves and destructions of guards, other containers), \<^verbatim>\<open>unwrap\<close> returns \<open>v\<close>.
\<close>

theorem unwrap_returns_constructed_value:
  assumes "run ops (Mutex_ctor a v st) = Inr st'" and "\<forall>x\<in>set ops. \<not> is_Write x"
  shows "\<exists>st''. Mutex_unwrap moved_from a st' = Inr (v, st'')"
proof -
  have "mutexes (Mutex_ctor a v st) a = Some \<lparr>Mutex_mutex = Unlocked, Mutex_value = v\<rparr>"
    by (simp add: Mutex_ctor_def)
  from run_keeps_value [OF assms(2) assms(1) this]
  show ?thesis by (auto simp: Mutex_unwrap_def)
qed

text \<open>
  The theorem at a program that fails no step: a \<^verbatim>\<open>try_lock()\<close> guard is dropped, a
  \<^verbatim>\<open>lock()\<close> guard is moved, and both guards of the move are dropped.
\<close>

theorem unwrap_returns_constructed_value_witness:
  "\<exists>st' st''. run [Try_lock 0 1, Dtor 1, Lock 0 2, Move_ctor 3 2, Dtor 2, Dtor 3]
        (Mutex_ctor 0 (7::int) empty_store) = Inr st'
      \<and> Mutex_unwrap (\<lambda>v. v) 0 st' = Inr (7, st'')"
proof -
  obtain st' where r: "run [Try_lock 0 1, Dtor 1, Lock 0 2, Move_ctor 3 2, Dtor 2, Dtor 3]
        (Mutex_ctor 0 (7::int) empty_store) = Inr st'"
    by (simp add: eval_defs)
  have "\<forall>x\<in>set [Try_lock 0 1, Dtor 1, Lock 0 2, Move_ctor 3 2, Dtor 2, Dtor 3 :: int op].
          \<not> is_Write x"
    by (simp add: is_Write_def)
  from unwrap_returns_constructed_value [OF r this, of "\<lambda>v. v"] r show ?thesis by blast
qed

section \<open>One release per acquisition\<close>

lemma run_moves:
  assumes "guards st g = Some r" and "distinct (g # gs)" and "\<forall>h\<in>set gs. guards st h = None"
  shows "\<exists>st2 r2. run (moves g gs) st = Inr st2
           \<and> mutexes st2 = mutexes st \<and> unlocks st2 = unlocks st
           \<and> guards st2 (last (g # gs)) = Some r2 \<and> MutexGuard_mutex r2 = MutexGuard_mutex r
           \<and> (\<forall>h\<in>set (butlast (g # gs)). husk st2 h)
           \<and> (\<forall>k. k \<notin> set (g # gs) \<longrightarrow> guards st2 k = guards st k)"
  using assms
proof (induction gs arbitrary: g st r)
  case Nil
  then show ?case by simp
next
  case (Cons h hs)
  from Cons.prems have fresh: "guards st h = None" and ne: "h \<noteq> g" by auto
  define st1 where "st1 = st\<lparr>guards := (guards st)
                  (h \<mapsto> \<lparr>MutexGuard_value = MutexGuard_value r,
                          MutexGuard_mutex = MutexGuard_mutex r\<rparr>,
                   g \<mapsto> r\<lparr>MutexGuard_mutex := None\<rparr>)\<rparr>"
  have s1: "step (Move_ctor h g) st = Inr st1"
    using fresh MutexGuard_move_ctor_effect [OF Cons.prems(1) ne] by (simp add: st1_def)
  have h1: "guards st1 h = Some \<lparr>MutexGuard_value = MutexGuard_value r,
                          MutexGuard_mutex = MutexGuard_mutex r\<rparr>"
    using ne by (simp add: st1_def)
  have d1: "distinct (h # hs)" using Cons.prems(2) by simp
  have f1: "\<forall>k\<in>set hs. guards st1 k = None"
    using Cons.prems(2,3) by (auto simp: st1_def)
  from Cons.IH [OF h1 d1 f1] obtain st2 r2 where
    r: "run (moves h hs) st1 = Inr st2" and
    m: "mutexes st2 = mutexes st1" "unlocks st2 = unlocks st1" and
    l: "guards st2 (last (h # hs)) = Some r2" "MutexGuard_mutex r2 = MutexGuard_mutex r" and
    hs: "\<forall>k\<in>set (butlast (h # hs)). husk st2 k" and
    fr: "\<forall>k. k \<notin> set (h # hs) \<longrightarrow> guards st2 k = guards st1 k"
    by auto
  have gout: "g \<notin> set (h # hs)" using Cons.prems(2) by auto
  with fr have "guards st2 g = guards st1 g" by blast
  then have hg: "husk st2 g" by (simp add: husk_def st1_def)
  have run: "run (moves g (h # hs)) st = Inr st2" using s1 r by simp
  have m': "mutexes st2 = mutexes st" "unlocks st2 = unlocks st"
    using m by (simp_all add: st1_def)
  have l': "guards st2 (last (g # h # hs)) = Some r2" using l(1) by simp
  have hs': "\<forall>k\<in>set (butlast (g # h # hs)). husk st2 k" using hs hg by simp
  have fr': "\<forall>k. k \<notin> set (g # h # hs) \<longrightarrow> guards st2 k = guards st k"
    using fr by (auto simp: st1_def)
  from run m' l' l(2) hs' fr' show ?case by blast
qed

lemma run_dtor_husks:
  assumes "distinct ds" and "\<forall>h\<in>set ds. husk st h"
  shows "\<exists>st'. run (map Dtor ds) st = Inr st'
           \<and> mutexes st' = mutexes st \<and> unlocks st' = unlocks st"
  using assms
proof (induction ds arbitrary: st)
  case Nil
  then show ?case by simp
next
  case (Cons x xs)
  define st1 where "st1 = st\<lparr>guards := (guards st)(x := None)\<rparr>"
  have s1: "step (Dtor x) st = Inr st1"
    using Cons.prems(2) by (simp add: dtor_husk st1_def)
  have "\<forall>h\<in>set xs. husk st1 h"
    using Cons.prems by (auto simp: husk_def st1_def)
  with Cons.IH [of st1] Cons.prems(1) obtain st' where
    r: "run (map Dtor xs) st1 = Inr st'" and
    e: "mutexes st' = mutexes st1" "unlocks st' = unlocks st1"
    by auto
  have "run (map Dtor (x # xs)) st = Inr st'" using s1 r by simp
  moreover have "mutexes st' = mutexes st" "unlocks st' = unlocks st"
    unfolding e by (simp_all add: st1_def)
  ultimately show ?case by blast
qed

lemma run_dtor_chain:
  assumes "distinct ds" and "l \<in> set ds"
    and "guards st l = Some r" and "MutexGuard_mutex r = Some a"
    and "mutexes st a = Some m" and "Mutex_mutex m = Locked"
    and "\<forall>h\<in>set ds - {l}. husk st h"
  shows "\<exists>st'. run (map Dtor ds) st = Inr st'
           \<and> mutexes st' = (mutexes st)(a \<mapsto> m\<lparr>Mutex_mutex := Unlocked\<rparr>)
           \<and> unlocks st' = unlocks st @ [a]"
  using assms
proof (induction ds arbitrary: st)
  case Nil
  then show ?case by simp
next
  case (Cons x xs)
  show ?case
  proof (cases "x = l")
    case True
    define st1 where "st1 = st\<lparr>mutexes := (mutexes st)(a \<mapsto> m\<lparr>Mutex_mutex := Unlocked\<rparr>),
                   guards := (guards st)(l := None),
                   unlocks := unlocks st @ [a]\<rparr>"
    have s1: "step (Dtor x) st = Inr st1"
      using True dtor_holder [OF Cons.prems(3,4,5,6)] by (simp add: st1_def)
    have lx: "l \<notin> set xs" using True Cons.prems(1) by simp
    then have "\<forall>h\<in>set xs. husk st1 h"
      using Cons.prems(7) by (auto simp: husk_def st1_def)
    with run_dtor_husks [of xs st1] Cons.prems(1) obtain st' where
      r: "run (map Dtor xs) st1 = Inr st'" and
      e: "mutexes st' = mutexes st1" "unlocks st' = unlocks st1"
      by auto
    have "run (map Dtor (x # xs)) st = Inr st'" using s1 r by simp
    moreover have "mutexes st' = (mutexes st)(a \<mapsto> m\<lparr>Mutex_mutex := Unlocked\<rparr>)"
      unfolding e by (simp add: st1_def)
    moreover have "unlocks st' = unlocks st @ [a]"
      unfolding e by (simp add: st1_def)
    ultimately show ?thesis by blast
  next
    case False
    define st1 where "st1 = st\<lparr>guards := (guards st)(x := None)\<rparr>"
    have "husk st x" using False Cons.prems(7) by simp
    then have s1: "step (Dtor x) st = Inr st1"
      by (simp add: dtor_husk st1_def)
    have p1: "distinct xs" "l \<in> set xs" using False Cons.prems(1,2) by auto
    have p3: "guards st1 l = Some r" using False Cons.prems(3) by (simp add: st1_def)
    have p5: "mutexes st1 a = Some m" using Cons.prems(5) by (simp add: st1_def)
    have p7: "\<forall>h\<in>set xs - {l}. husk st1 h"
      using Cons.prems(1,7) by (auto simp: husk_def st1_def)
    from Cons.IH [OF p1 p3 Cons.prems(4) p5 Cons.prems(6) p7] obtain st' where
      r: "run (map Dtor xs) st1 = Inr st'" and
      e: "mutexes st' = (mutexes st1)(a \<mapsto> m\<lparr>Mutex_mutex := Unlocked\<rparr>)"
         "unlocks st' = unlocks st1 @ [a]"
      by blast
    have "run (map Dtor (x # xs)) st = Inr st'" using s1 r by simp
    moreover have "mutexes st' = (mutexes st)(a \<mapsto> m\<lparr>Mutex_mutex := Unlocked\<rparr>)"
      unfolding e by (simp add: st1_def)
    moreover have "unlocks st' = unlocks st @ [a]"
      unfolding e by (simp add: st1_def)
    ultimately show ?thesis by blast
  qed
qed

text \<open>
  Chains of move constructions. A guard comes from a successful \<^verbatim>\<open>lock()\<close>, or from a
  \<^verbatim>\<open>try_lock()\<close> whose guard converts to \<^verbatim>\<open>true\<close>, and is moved along a chain of move
  constructions of any length into fresh variables. Then every guard of the chain is
  destroyed once, in any order. All of this runs without a fault, and over the whole of
  it exactly one \<^verbatim>\<open>unlock()\<close> of the \<^verbatim>\<open>Mutex\<close> is logged, which ends unlocked. Taken one at
  a time in the store after the moves: destroying the last guard of the chain logs the
  one \<^verbatim>\<open>unlock()\<close>, destroying any of the moved-from guards logs none.
\<close>

lemma guard_chain_unlocks_once:
  assumes acq: "step (Lock a g) st = Inr st1
           \<or> (step (Try_lock a g) st = Inr st1 \<and> (\<exists>r. guards st1 g = Some r \<and> MutexGuard_bool r))"
    and dist: "distinct (g # gs)" and fresh: "\<forall>h\<in>set gs. guards st h = None"
    and ds: "distinct ds" "set ds = set (g # gs)"
  shows "\<exists>st2 st3. run (moves g gs) st1 = Inr st2 \<and> run (map Dtor ds) st2 = Inr st3
           \<and> unlocks st3 = unlocks st @ [a]
           \<and> (\<forall>h\<in>set (g # gs). \<exists>st'. MutexGuard_dtor h st2 = Inr st'
                  \<and> unlocks st' = unlocks st2 @ (if h = last (g # gs) then [a] else []))
           \<and> (\<exists>m. mutexes st3 a = Some m \<and> Mutex_mutex m = Unlocked)"
proof -
  from acquired_store [OF acq] obtain m where
    m: "mutexes st a = Some m" "Mutex_mutex m = Unlocked" and g0: "guards st g = None" and
    st1: "st1 = materialize g \<lparr>MutexGuard_value = Some a, MutexGuard_mutex = Some a\<rparr>
                      (st\<lparr>mutexes := (mutexes st)(a \<mapsto> m\<lparr>Mutex_mutex := Locked\<rparr>)\<rparr>)"
    by blast
  have g1: "guards st1 g = Some \<lparr>MutexGuard_value = Some a, MutexGuard_mutex = Some a\<rparr>"
    by (simp add: st1 materialize_def)
  have f1: "\<forall>h\<in>set gs. guards st1 h = None"
    using fresh dist by (auto simp: st1 materialize_def)
  from run_moves [OF g1 dist f1] obtain st2 r2 where
    r2: "run (moves g gs) st1 = Inr st2" and
    m2: "mutexes st2 = mutexes st1" "unlocks st2 = unlocks st1" and
    l2: "guards st2 (last (g # gs)) = Some r2" "MutexGuard_mutex r2 = Some a" and
    h2: "\<forall>h\<in>set (butlast (g # gs)). husk st2 h"
    by auto
  have ma: "mutexes st2 a = Some (m\<lparr>Mutex_mutex := Locked\<rparr>)"
    using m2 by (simp add: st1 materialize_def)
  have lk: "Mutex_mutex (m\<lparr>Mutex_mutex := Locked\<rparr>) = Locked" by simp
  have lin: "last (g # gs) \<in> set ds" using ds(2) last_in_set [of "g # gs"] by simp
  have others: "husk st2 h" if "h \<in> set (g # gs)" "h \<noteq> last (g # gs)" for h
  proof -
    have "g # gs = butlast (g # gs) @ [last (g # gs)]" by simp
    then have "set (g # gs) = set (butlast (g # gs)) \<union> {last (g # gs)}"
      by (metis list.simps(15) set_append empty_set)
    with that have "h \<in> set (butlast (g # gs))" by blast
    with h2 show ?thesis by blast
  qed
  then have h2': "\<forall>h\<in>set ds - {last (g # gs)}. husk st2 h" using ds(2) by blast
  from run_dtor_chain [OF ds(1) lin l2 ma lk h2'] obtain st3 where
    r3: "run (map Dtor ds) st2 = Inr st3" and
    m3: "mutexes st3 = (mutexes st2)(a \<mapsto> m\<lparr>Mutex_mutex := Locked, Mutex_mutex := Unlocked\<rparr>)" and
    u3: "unlocks st3 = unlocks st2 @ [a]"
    by auto
  have u: "unlocks st3 = unlocks st @ [a]" using u3 m2 by (simp add: st1 materialize_def)
  have each: "\<exists>st'. MutexGuard_dtor h st2 = Inr st'
                  \<and> unlocks st' = unlocks st2 @ (if h = last (g # gs) then [a] else [])"
    if "h \<in> set (g # gs)" for h
  proof (cases "h = last (g # gs)")
    case True
    then show ?thesis using dtor_holder [OF l2 ma lk] by simp
  next
    case False
    from others [OF that False] show ?thesis using False by (simp add: dtor_husk)
  qed
  have fin: "\<exists>m. mutexes st3 a = Some m \<and> Mutex_mutex m = Unlocked" using m3 by simp
  from r2 r3 u each fin show ?thesis by blast
qed

text \<open>
  A chain of three guards, destroyed in an order that is neither the order of
  construction nor its reverse.
\<close>

lemma guard_chain_unlocks_once_example:
  "\<exists>st1 st2 st3. step (Lock 0 1) (Mutex_ctor 0 (0::int) empty_store) = Inr st1
      \<and> run (moves 1 [2, 3]) st1 = Inr st2 \<and> run (map Dtor [2, 3, 1]) st2 = Inr st3
      \<and> unlocks st3 = [0]
      \<and> (\<exists>m. mutexes st3 0 = Some m \<and> Mutex_mutex m = Unlocked)"
proof -
  obtain st1 where s: "step (Lock 0 1) (Mutex_ctor 0 (0::int) empty_store) = Inr st1"
    by (simp add: eval_defs)
  have f: "\<forall>h\<in>set [2, 3]. guards (Mutex_ctor 0 (0::int) empty_store) h = None"
    by (simp add: eval_defs)
  have d: "distinct (1 # [2, 3 :: nat])" "distinct [2, 3, 1 :: nat]"
    "set [2, 3, 1] = set (1 # [2, 3 :: nat])"
    by auto
  from guard_chain_unlocks_once [OF disjI1 [OF s] d(1) f d(2) d(3)] s show ?thesis
    by (auto simp: eval_defs)
qed

text \<open>
  C1. A chain of moves with a move assignment in it does not end with exactly one
  \<^verbatim>\<open>unlock()\<close>. After \<^verbatim>\<open>auto g = m.lock(); auto h = m.try_lock();\<close> the guard \<open>g\<close> holds the
  lock and \<open>h\<close> is an empty guard; \<^verbatim>\<open>h = std::move(g);\<close> moves the lock on, and both guards
  are then destroyed. The program runs up to the assignment, with no \<^verbatim>\<open>unlock()\<close> so far,
  and is undefined from there: the assignment never returns.
\<close>

theorem guard_chain_with_assign_undefined:
  "guard_at 1 (run [New_Mutex 0 (0::int), Lock 0 1, Try_lock 0 2] empty_store)
     = Some \<lparr>MutexGuard_value = Some 0, MutexGuard_mutex = Some 0\<rparr>
   \<and> guard_at 2 (run [New_Mutex 0 (0::int), Lock 0 1, Try_lock 0 2] empty_store)
     = Some \<lparr>MutexGuard_value = None, MutexGuard_mutex = None\<rparr>
   \<and> unlocks_of (run [New_Mutex 0 (0::int), Lock 0 1, Try_lock 0 2] empty_store) = Some []
   \<and> run [New_Mutex 0 (0::int), Lock 0 1, Try_lock 0 2, Assign 2 1, Dtor 1, Dtor 2] empty_store
     = Inl Undefined"
  by (simp add: guard_at_def unlocks_of_def eval_defs)

end
